theory Spec2Isabelle
  imports Complex_Main "HOL-Library.Word" "HOL-Library.Multiset"
begin

unbundle bit_operations_syntax


definition isWhiteSpace :: "char \<Rightarrow> bool" where
  "isWhiteSpace c = (let n = of_char c :: nat in (9 \<le> n \<and> n \<le> 13) \<or> n = 32 \<or> n = 160)"

definition isWordChar :: "char \<Rightarrow> bool" where
  "isWordChar c = (let n = of_char c :: nat in
     (48 \<le> n \<and> n \<le> 57) \<or> (65 \<le> n \<and> n \<le> 90) \<or> n = 95 \<or> (97 \<le> n \<and> n \<le> 122))"

definition isLowerAZ :: "char \<Rightarrow> bool" where
  "isLowerAZ c = (let n = of_char c :: nat in 97 \<le> n \<and> n \<le> 122)"

definition isDigit :: "char \<Rightarrow> bool" where
  "isDigit c = (let n = of_char c :: nat in 48 \<le> n \<and> n \<le> 57)"

definition upper_case_chars :: string where
  "upper_case_chars = ''ABCDEFGHIJKLMNOPQRSTUVWXYZ'' @
     [CHR 0xC0, CHR 0xC1, CHR 0xC2, CHR 0xC3, CHR 0xC4, CHR 0xC5, CHR 0xC6, CHR 0xC7, CHR 0xC8, CHR 0xC9, CHR 0xCA, CHR 0xCB, CHR 0xCC, CHR 0xCD, CHR 0xCE, CHR 0xCF, CHR 0xD0, CHR 0xD1, CHR 0xD2, CHR 0xD3, CHR 0xD4, CHR 0xD5, CHR 0xD6, CHR 0xD8, CHR 0xD9, CHR 0xDA, CHR 0xDB, CHR 0xDC, CHR 0xDD, CHR 0xDE]"

definition lower_case_chars :: string where
  "lower_case_chars = ''abcdefghijklmnopqrstuvwxyz'' @
     [CHR 0xE0, CHR 0xE1, CHR 0xE2, CHR 0xE3, CHR 0xE4, CHR 0xE5, CHR 0xE6, CHR 0xE7, CHR 0xE8, CHR 0xE9, CHR 0xEA, CHR 0xEB, CHR 0xEC, CHR 0xED, CHR 0xEE, CHR 0xEF, CHR 0xF0, CHR 0xF1, CHR 0xF2, CHR 0xF3, CHR 0xF4, CHR 0xF5, CHR 0xF6, CHR 0xF8, CHR 0xF9, CHR 0xFA, CHR 0xFB, CHR 0xFC, CHR 0xFD, CHR 0xFE]"

definition toLowerCase_char :: "char \<Rightarrow> char" where
  "toLowerCase_char c =
     (case map_of (zip upper_case_chars lower_case_chars) c of None \<Rightarrow> c | Some l \<Rightarrow> l)"

definition toLowerCase :: "string \<Rightarrow> string" where
  "toLowerCase s = map toLowerCase_char s"

definition js_trim :: "string \<Rightarrow> string" where
  "js_trim s = rev (dropWhile isWhiteSpace (rev (dropWhile isWhiteSpace s)))"

definition startsWith :: "string \<Rightarrow> string \<Rightarrow> bool" where
  "startsWith s p = (take (length p) s = p)"

definition endsWith :: "string \<Rightarrow> string \<Rightarrow> bool" where
  "endsWith s p = (length p \<le> length s \<and> drop (length s - length p) s = p)"

fun str_includes :: "string \<Rightarrow> string \<Rightarrow> bool" where
  "str_includes [] p = (p = [])"
| "str_includes (c # cs) p = (startsWith (c # cs) p \<or> str_includes cs p)"

fun join_with :: "string \<Rightarrow> string list \<Rightarrow> string" where
  "join_with sep [] = []"
| "join_with sep [x] = x"
| "join_with sep (x # y # ys) = x @ sep @ join_with sep (y # ys)"

definition js_slice :: "'a list \<Rightarrow> int \<Rightarrow> int \<Rightarrow> 'a list" where
  "js_slice xs start stop =
     (let n = int (length xs);
          k = (if start < 0 then max (n + start) 0 else min start n);
          final = (if stop < 0 then max (n + stop) 0 else min stop n)
      in take (nat (final - k)) (drop (nat k) xs))"

fun split_ws_from :: "string \<Rightarrow> bool \<Rightarrow> string \<Rightarrow> string list" where
  "split_ws_from cur in_sep [] = [rev cur]"
| "split_ws_from cur in_sep (c # cs) =
     (if isWhiteSpace c then
        (if in_sep then split_ws_from [] True cs else rev cur # split_ws_from [] True cs)
      else split_ws_from (c # cur) False cs)"

definition split_ws :: "string \<Rightarrow> string list" where
  "split_ws s = split_ws_from [] False s"

definition newline :: char where
  "newline = CHR 0x0A"

definition heading_ahead :: "string \<Rightarrow> bool" where
  "heading_ahead s =
     (let hs = takeWhile (\<lambda>c. c = CHR ''#'') s; rest = dropWhile (\<lambda>c. c = CHR ''#'') s
      in 1 \<le> length hs \<and> length hs \<le> 3 \<and> (case rest of [] \<Rightarrow> False | c # _ \<Rightarrow> isWhiteSpace c))"

fun split_paragraphs_from :: "string \<Rightarrow> bool \<Rightarrow> string \<Rightarrow> string list" where
  "split_paragraphs_from cur in_run [] = [rev cur]"
| "split_paragraphs_from cur in_run (c # cs) =
     (if in_run \<and> c = newline then split_paragraphs_from [] True cs
      else if c = newline \<and> (case cs of [] \<Rightarrow> False | d # _ \<Rightarrow> d = newline) then
        rev cur # split_paragraphs_from [] True cs
      else if c = newline \<and> heading_ahead cs then rev cur # split_paragraphs_from [] False cs
      else split_paragraphs_from (c # cur) False cs)"

definition split_paragraphs :: "string \<Rightarrow> string list" where
  "split_paragraphs s = split_paragraphs_from [] False s"



definition digit_char :: "nat \<Rightarrow> char" where
  "digit_char d = ''0123456789abcdefghijklmnopqrstuvwxyz'' ! d"

function toString_radix :: "nat \<Rightarrow> nat \<Rightarrow> string" where
  "toString_radix r n =
     (if r < 2 \<or> n < r then [digit_char n]
      else toString_radix r (n div r) @ [digit_char (n mod r)])"
  by pat_completeness auto
termination
proof (relation "measure snd")
  show "wf (measure snd)" by simp
next
  fix r n :: nat
  assume "\<not> (r < 2 \<or> n < r)"
  then have "1 < r" "0 < n" by simp_all
  then have "n div r < n" by (rule div_less_dividend)
  then show "((r, n div r), (r, n)) \<in> measure snd" by simp
qed

declare toString_radix.simps [simp del]

fun hash_loop :: "32 word \<Rightarrow> string \<Rightarrow> 32 word" where
  "hash_loop hash [] = hash"
| "hash_loop hash (c # cs) = hash_loop (push_bit 5 hash - hash + of_char c) cs"

definition simpleHash :: "string \<Rightarrow> string" where
  "simpleHash str = toString_radix 36 (nat \<bar>sint (hash_loop 0 str)\<bar>)"

definition generateChunkId :: "string \<Rightarrow> nat \<Rightarrow> string" where
  "generateChunkId url index = simpleHash url @ ''-'' @ toString_radix 10 index"

definition DEFAULT_CHUNK_SIZE :: int where "DEFAULT_CHUNK_SIZE = 500"
definition DEFAULT_CHUNK_OVERLAP :: int where "DEFAULT_CHUNK_OVERLAP = 100"
definition MIN_CHUNK_SIZE :: nat where "MIN_CHUNK_SIZE = 50"

record page =
  pg_url :: string
  pg_title :: string
  pg_content :: string
  pg_links :: "string list"
  pg_crawledAt :: nat

record chunk_metadata =
  md_url :: string
  md_title :: string
  md_chunkIndex :: nat
  md_totalChunks :: nat
  md_context :: "string option"
  md_keywords :: "string list option"

record chunk =
  chunk_id :: string
  chunk_text :: string
  chunk_metadata :: chunk_metadata

record chunk_options =
  opt_chunkSize :: "int option"
  opt_chunkOverlap :: "int option"
  opt_semantic :: "bool option"

partial_function (option) sliding_loop ::
  "string list \<Rightarrow> int \<Rightarrow> int \<Rightarrow> int \<Rightarrow> string list \<Rightarrow> string list option" where
  "sliding_loop words chunkSize chunkOverlap start chunks =
     (if start < int (length words) then
        (let stop = min (start + chunkSize) (int (length words));
             chunk = join_with '' '' (js_slice words start stop);
             chunks' = (if js_trim chunk \<noteq> [] \<and> MIN_CHUNK_SIZE \<le> length (split_ws chunk)
                        then chunks @ [chunk] else chunks);
             start' = start + (chunkSize - chunkOverlap)
         in if int (length words) - chunkOverlap \<le> start' \<and> chunks' \<noteq> [] then Some chunks'
            else sliding_loop words chunkSize chunkOverlap start' chunks')
      else Some chunks)"

definition slidingWindowChunk :: "string \<Rightarrow> int \<Rightarrow> int \<Rightarrow> string list option" where
  "slidingWindowChunk text chunkSize chunkOverlap =
     (let words = split_ws text in
      if int (length words) \<le> chunkSize then Some [text]
      else sliding_loop words chunkSize chunkOverlap 0 [])"

fun overlap_loop :: "string list \<Rightarrow> int \<Rightarrow> string list \<Rightarrow> nat \<Rightarrow> string list \<times> nat" where
  "overlap_loop [] chunkOverlap overlapParagraphs overlapSize = (overlapParagraphs, overlapSize)"
| "overlap_loop (p # ps) chunkOverlap overlapParagraphs overlapSize =
     (if int overlapSize < chunkOverlap
      then overlap_loop ps chunkOverlap (p # overlapParagraphs) (overlapSize + length (split_ws p))
      else (overlapParagraphs, overlapSize))"

fun semantic_loop ::
  "int \<Rightarrow> int \<Rightarrow> string list \<Rightarrow> string list \<Rightarrow> string list \<Rightarrow> nat
     \<Rightarrow> (string list \<times> string list \<times> nat) option" where
  "semantic_loop maxChunkSize chunkOverlap [] chunks currentChunk currentSize =
     Some (chunks, currentChunk, currentSize)"
| "semantic_loop maxChunkSize chunkOverlap (paragraph # rest) chunks currentChunk currentSize =
     (let paragraphWords = length (split_ws paragraph) in
      if maxChunkSize < int paragraphWords then
        (let flushed = (currentChunk \<noteq> []);
             chunks1 = (if flushed then chunks @ [join_with [newline, newline] currentChunk] else chunks);
             currentChunk1 = (if flushed then [] else currentChunk);
             currentSize1 = (if flushed then 0 else currentSize)
         in case slidingWindowChunk paragraph maxChunkSize chunkOverlap of
              None \<Rightarrow> None
            | Some subChunks \<Rightarrow>
                semantic_loop maxChunkSize chunkOverlap rest (chunks1 @ subChunks)
                  currentChunk1 currentSize1)
      else if maxChunkSize < int (currentSize + paragraphWords) \<and> currentChunk \<noteq> [] then
        (case overlap_loop (rev currentChunk) chunkOverlap [] 0 of
           (overlapParagraphs, overlapSize) \<Rightarrow>
             semantic_loop maxChunkSize chunkOverlap rest
               (chunks @ [join_with [newline, newline] currentChunk])
               (overlapParagraphs @ [paragraph]) (overlapSize + paragraphWords))
      else semantic_loop maxChunkSize chunkOverlap rest chunks
             (currentChunk @ [paragraph]) (currentSize + paragraphWords))"

definition semanticChunkText :: "string \<Rightarrow> int \<Rightarrow> int \<Rightarrow> string list option" where
  "semanticChunkText text maxChunkSize chunkOverlap =
     (case semantic_loop maxChunkSize chunkOverlap (split_paragraphs text) [] [] 0 of
        None \<Rightarrow> None
      | Some (chunks, currentChunk, currentSize) \<Rightarrow>
          Some (filter (\<lambda>c. MIN_CHUNK_SIZE \<le> length (split_ws c))
                 (if currentChunk \<noteq> [] \<and> MIN_CHUNK_SIZE \<le> currentSize
                  then chunks @ [join_with [newline, newline] currentChunk] else chunks)))"

definition stopWords :: "string list" where
  "stopWords = [''the'', ''a'', ''an'', ''and'', ''or'', ''but'', ''in'', ''on'', ''at'', ''to'',
     ''for'', ''of'', ''with'', ''by'', ''from'', ''is'', ''are'', ''was'', ''were'', ''be'',
     ''been'', ''being'', ''have'', ''has'', ''had'', ''do'', ''does'', ''did'', ''will'',
     ''would'', ''could'', ''should'', ''may'', ''might'', ''must'', ''shall'', ''can'',
     ''this'', ''that'', ''these'', ''those'', ''it'', ''its'', ''as'', ''if'', ''then'',
     ''else'']"

fun word_runs :: "string \<Rightarrow> string \<Rightarrow> string list" where
  "word_runs cur [] = (if cur = [] then [] else [rev cur])"
| "word_runs cur (c # cs) =
     (if isWordChar c then word_runs (c # cur) cs
      else if cur = [] then word_runs [] cs
      else rev cur # word_runs [] cs)"

definition match_words :: "string \<Rightarrow> string list" where
  "match_words s = filter (\<lambda>w. 3 \<le> length w \<and> list_all isLowerAZ w) (word_runs [] s)"

fun count_word :: "(string \<times> nat) list \<Rightarrow> string \<Rightarrow> (string \<times> nat) list" where
  "count_word [] w = [(w, 1)]"
| "count_word ((k, n) # kvs) w = (if k = w then (k, n + 1) # kvs else (k, n) # count_word kvs w)"

definition extractKeywords :: "string \<Rightarrow> string list" where
  "extractKeywords text =
     (let words = match_words (toLowerCase text);
          wordCount = foldl count_word [] (filter (\<lambda>w. w \<notin> set stopWords) words)
      in map fst (take 20 (sort_key (\<lambda>(w, n). - int n) wordCount)))"

fun first_paragraph :: "string \<Rightarrow> string" where
  "first_paragraph [] = []"
| "first_paragraph (c # cs) =
     (if c = newline \<and> (case cs of [] \<Rightarrow> False | d # _ \<Rightarrow> d = newline) then []
      else c # first_paragraph cs)"

definition generateDocumentContext :: "page \<Rightarrow> string" where
  "generateDocumentContext page =
     ''Document: '' @ [CHR 0x22] @ pg_title page @ [CHR 0x22] @ '' from '' @ pg_url page
       @ ''. '' @ take 200 (first_paragraph (pg_content page)) @ ''...''"

definition page_chunks :: "page \<Rightarrow> string list \<Rightarrow> chunk list" where
  "page_chunks page pageChunks =
     map (\<lambda>(i, chunkText).
            \<lparr>chunk_id = generateChunkId (pg_url page) i,
             chunk_text = chunkText,
             chunk_metadata =
               \<lparr>md_url = pg_url page, md_title = pg_title page, md_chunkIndex = i,
                md_totalChunks = length pageChunks,
                md_context = Some (generateDocumentContext page),
                md_keywords = Some (extractKeywords chunkText)\<rparr>\<rparr>)
         (enumerate 0 pageChunks)"

fun chunkPages_loop :: "int \<Rightarrow> int \<Rightarrow> bool \<Rightarrow> page list \<Rightarrow> chunk list \<Rightarrow> chunk list option" where
  "chunkPages_loop chunkSize chunkOverlap useSemantic [] allChunks = Some allChunks"
| "chunkPages_loop chunkSize chunkOverlap useSemantic (page # pages) allChunks =
     (case (if useSemantic then semanticChunkText (pg_content page) chunkSize chunkOverlap
            else slidingWindowChunk (pg_content page) chunkSize chunkOverlap) of
        None \<Rightarrow> None
      | Some pageChunks \<Rightarrow>
          chunkPages_loop chunkSize chunkOverlap useSemantic pages
            (allChunks @ page_chunks page pageChunks))"

definition option_field :: "'o option \<Rightarrow> ('o \<Rightarrow> 'a option) \<Rightarrow> 'a \<Rightarrow> 'a" where
  "option_field options field dflt =
     (case options of None \<Rightarrow> dflt
      | Some opts \<Rightarrow> (case field opts of None \<Rightarrow> dflt | Some v \<Rightarrow> v))"

definition chunkPages :: "page list \<Rightarrow> chunk_options option \<Rightarrow> chunk list option" where
  "chunkPages pages options =
     chunkPages_loop (option_field options opt_chunkSize DEFAULT_CHUNK_SIZE)
       (option_field options opt_chunkOverlap DEFAULT_CHUNK_OVERLAP)
       (option_field options opt_semantic True) pages []"

subsection \<open>Regular expressions\<close>

datatype regex =
    Null
  | Eps
  | Chr char
  | Range char char
  | Seq regex regex
  | Alt regex regex
  | Star regex

fun nullable :: "regex \<Rightarrow> bool" where
  "nullable Null = False"
| "nullable Eps = True"
| "nullable (Chr c) = False"
| "nullable (Range lo hi) = False"
| "nullable (Seq r s) = (nullable r \<and> nullable s)"
| "nullable (Alt r s) = (nullable r \<or> nullable s)"
| "nullable (Star r) = True"

fun deriv :: "char \<Rightarrow> regex \<Rightarrow> regex" where
  "deriv c Null = Null"
| "deriv c Eps = Null"
| "deriv c (Chr d) = (if c = d then Eps else Null)"
| "deriv c (Range lo hi) =
     (if (of_char lo :: nat) \<le> of_char c \<and> (of_char c :: nat) \<le> of_char hi then Eps else Null)"
| "deriv c (Seq r s) =
     (if nullable r then Alt (Seq (deriv c r) s) (deriv c s) else Seq (deriv c r) s)"
| "deriv c (Alt r s) = Alt (deriv c r) (deriv c s)"
| "deriv c (Star r) = Seq (deriv c r) (Star r)"

definition full_match :: "regex \<Rightarrow> string \<Rightarrow> bool" where
  "full_match r s = nullable (foldl (\<lambda>q c. deriv c q) r s)"

fun Lit :: "string \<Rightarrow> regex" where
  "Lit [] = Eps"
| "Lit [c] = Chr c"
| "Lit (c # d # cs) = Seq (Chr c) (Lit (d # cs))"

fun Seqs :: "regex list \<Rightarrow> regex" where
  "Seqs [] = Eps"
| "Seqs [r] = r"
| "Seqs (r # s # rs) = Seq r (Seqs (s # rs))"

fun Alts :: "regex list \<Rightarrow> regex" where
  "Alts [] = Null"
| "Alts [r] = r"
| "Alts (r # s # rs) = Alt r (Alts (s # rs))"

definition Digit :: regex where
  "Digit = Range CHR ''0'' CHR ''9''"

definition Plus :: "regex \<Rightarrow> regex" where
  "Plus r = Seq r (Star r)"

record js_regexp =
  anchored_start :: bool
  anchored_end :: bool
  ignore_case :: bool
  pattern_body :: regex

fun tails :: "'a list \<Rightarrow> 'a list list" where
  "tails [] = [[]]"
| "tails (x # xs) = (x # xs) # tails xs"

fun inits :: "'a list \<Rightarrow> 'a list list" where
  "inits [] = [[]]"
| "inits (x # xs) = [] # map (\<lambda>ys. x # ys) (inits xs)"

definition ascii_lower_char :: "char \<Rightarrow> char" where
  "ascii_lower_char c =
     (case map_of (zip ''ABCDEFGHIJKLMNOPQRSTUVWXYZ'' ''abcdefghijklmnopqrstuvwxyz'') c of
        None \<Rightarrow> c | Some l \<Rightarrow> l)"

definition regexp_test :: "js_regexp \<Rightarrow> string \<Rightarrow> bool" where
  "regexp_test re str =
     (let s = (if ignore_case re then map ascii_lower_char str else str);
          starts = (if anchored_start re then [s] else tails s)
      in list_ex (\<lambda>t. if anchored_end re then full_match (pattern_body re) t
                        else list_ex (full_match (pattern_body re)) (inits t)) starts)"

subsection \<open>URL guard\<close>

record url =
  protocol :: string
  hostname :: string
  port :: string
  hash :: string
  href :: string

datatype js_error = Error string | NonError

record dom =
  dom_title :: string
  dom_h1 :: string
  dom_main :: string
  dom_article :: string
  dom_role_main :: string
  dom_body :: string
  dom_hrefs :: "string list"

datatype body_stream =
    Done "8 word list option"
  | Fails js_error
  | More "8 word list option" body_stream

record response =
  status :: nat
  headers :: "string \<Rightarrow> string option"
  body :: "body_stream option"

datatype fetch_outcome = Rejected js_error | Resolved response

record platform =
  URL_parse :: "string \<Rightarrow> url option"
  URL_resolve :: "string \<Rightarrow> string \<Rightarrow> url option"
  http_fetch :: "string list \<Rightarrow> string \<Rightarrow> fetch_outcome"
  text_decode :: "8 word list \<Rightarrow> string"
  cheerio_load :: "string \<Rightarrow> dom"
  clock :: "string list \<Rightarrow> nat"

definition BLOCKED_HOSTNAMES :: "string list" where
  "BLOCKED_HOSTNAMES =
     [''localhost'', ''127.0.0.1'', ''0.0.0.0'', ''[::1]'', ''metadata.google.internal'',
      ''169.254.169.254'']"

definition BLOCKED_HOSTNAME_PATTERNS :: "js_regexp list" where
  "BLOCKED_HOSTNAME_PATTERNS =
     [\<lparr>anchored_start = True, anchored_end = True, ignore_case = False,
        pattern_body = Seqs [Lit ''10.'', Plus Digit, Chr CHR ''.'', Plus Digit, Chr CHR ''.'',
                             Plus Digit]\<rparr>,
      \<lparr>anchored_start = True, anchored_end = True, ignore_case = False,
        pattern_body = Seqs [Lit ''172.'',
                             Alts [Seq (Chr CHR ''1'') (Range CHR ''6'' CHR ''9''),
                                   Seq (Chr CHR ''2'') Digit,
                                   Seq (Chr CHR ''3'') (Range CHR ''0'' CHR ''1'')],
                             Chr CHR ''.'', Plus Digit, Chr CHR ''.'', Plus Digit]\<rparr>,
      \<lparr>anchored_start = True, anchored_end = True, ignore_case = False,
        pattern_body = Seqs [Lit ''192.168.'', Plus Digit, Chr CHR ''.'', Plus Digit]\<rparr>,
      \<lparr>anchored_start = False, anchored_end = True, ignore_case = False,
        pattern_body = Lit ''.local''\<rparr>,
      \<lparr>anchored_start = False, anchored_end = True, ignore_case = False,
        pattern_body = Lit ''.internal''\<rparr>]"

definition isBlockedUrl :: "platform \<Rightarrow> string \<Rightarrow> bool" where
  "isBlockedUrl P u =
     (case URL_parse P u of
        None \<Rightarrow> True
      | Some parsed \<Rightarrow>
          (let host = toLowerCase (hostname parsed) in
           if host \<in> set BLOCKED_HOSTNAMES then True
           else if list_ex (\<lambda>pattern. regexp_test pattern host) BLOCKED_HOSTNAME_PATTERNS then True
           else if port parsed \<noteq> [] \<and> port parsed \<notin> set [''80'', ''443'', []] then True
           else False))"


subsection \<open>Fetcher\<close>

definition MAX_DEPTH_LIMIT :: int where "MAX_DEPTH_LIMIT = 5"
definition DEFAULT_MAX_PAGES :: nat where "DEFAULT_MAX_PAGES = 100"
definition MAX_RESPONSE_SIZE_BYTES :: nat where "MAX_RESPONSE_SIZE_BYTES = 10 * 1024 * 1024"

definition response_ok :: "response \<Rightarrow> bool" where
  "response_ok r = (200 \<le> status r \<and> status r \<le> 299)"

definition is_redirect :: "response \<Rightarrow> bool" where
  "is_redirect r = (300 \<le> status r \<and> status r < 400)"

definition parseInt10 :: "string \<Rightarrow> int option" where
  "parseInt10 s =
     (let t = dropWhile isWhiteSpace s;
          negative = (case t of [] \<Rightarrow> False | c # _ \<Rightarrow> c = CHR ''-'');
          signed = (case t of [] \<Rightarrow> False | c # _ \<Rightarrow> c = CHR ''-'' \<or> c = CHR ''+'');
          ds = takeWhile isDigit (if signed then tl t else t);
          magnitude = foldl (\<lambda>acc c. 10 * acc + (int (of_char c) - 48)) 0 ds
      in if ds = [] then None else Some (if negative then - magnitude else magnitude))"

fun read_loop ::
  "body_stream \<Rightarrow> 8 word list list \<Rightarrow> nat \<Rightarrow> js_error + 8 word list list option" where
  "read_loop (Fails e) chunks totalSize = Inl e"
| "read_loop (Done v) chunks totalSize =
     (case v of
        None \<Rightarrow> Inr (Some chunks)
      | Some chunk \<Rightarrow>
          if MAX_RESPONSE_SIZE_BYTES < totalSize + length chunk then Inr None
          else Inr (Some (chunks @ [chunk])))"
| "read_loop (More v rest) chunks totalSize =
     (case v of
        None \<Rightarrow> read_loop rest chunks totalSize
      | Some chunk \<Rightarrow>
          if MAX_RESPONSE_SIZE_BYTES < totalSize + length chunk then Inr None
          else read_loop rest (chunks @ [chunk]) (totalSize + length chunk))"

definition readResponseWithLimit :: "platform \<Rightarrow> response \<Rightarrow> js_error + string option" where
  "readResponseWithLimit P r =
     (case body r of
        None \<Rightarrow> Inr None
      | Some stream \<Rightarrow>
          (case read_loop stream [] 0 of
             Inl e \<Rightarrow> Inl e
           | Inr None \<Rightarrow> Inr None
           | Inr (Some chunks) \<Rightarrow> Inr (Some (text_decode P (concat chunks)))))"

subsection \<open>Page parser\<close>

fun collapse_ws :: "bool \<Rightarrow> string \<Rightarrow> string" where
  "collapse_ws in_run [] = []"
| "collapse_ws in_run (c # cs) =
     (if isWhiteSpace c then (if in_run then collapse_ws True cs else CHR '' '' # collapse_ws True cs)
      else c # collapse_ws False cs)"

fun collapse_blank_lines :: "string \<Rightarrow> string" where
  "collapse_blank_lines [] = []"
| "collapse_blank_lines (c # cs) =
     (let run = takeWhile isWhiteSpace cs in
      if c = newline \<and> newline \<in> set run
      then newline # collapse_blank_lines
             (drop (length (dropWhile (\<lambda>x. x \<noteq> newline) (rev run))) cs)
      else c # collapse_blank_lines cs)"

definition cleanText :: "string \<Rightarrow> string" where
  "cleanText text = js_trim (collapse_blank_lines (collapse_ws False text))"

definition first_nonempty :: "string list \<Rightarrow> string \<Rightarrow> string" where
  "first_nonempty candidates last_one =
     (case filter (\<lambda>s. s \<noteq> []) candidates of [] \<Rightarrow> last_one | s # _ \<Rightarrow> s)"

definition add_unique :: "'a list \<Rightarrow> 'a \<Rightarrow> 'a list" where
  "add_unique xs x = (if x \<in> set xs then xs else xs @ [x])"

definition extract_links :: "platform \<Rightarrow> string \<Rightarrow> string list \<Rightarrow> string list" where
  "extract_links P u hrefs =
     concat (map (\<lambda>h. if h = [] then []
                       else (case URL_resolve P h u of
                               None \<Rightarrow> []
                             | Some absolute \<Rightarrow>
                                 if startsWith (href absolute) ''http'' then [href absolute] else []))
              hrefs)"

definition parsePage :: "platform \<Rightarrow> string list \<Rightarrow> string \<Rightarrow> string \<Rightarrow> page" where
  "parsePage P hist u html =
     (let d = cheerio_load P html;
          title = first_nonempty [js_trim (dom_title d), js_trim (dom_h1 d)] u;
          mainContent = first_nonempty [dom_main d, dom_article d, dom_role_main d] (dom_body d);
          links = extract_links P u (dom_hrefs d)
      in \<lparr>pg_url = u, pg_title = title, pg_content = cleanText mainContent,
          pg_links = foldl add_unique [] links, pg_crawledAt = clock P hist\<rparr>)"

definition read_html_page ::
  "platform \<Rightarrow> string list \<Rightarrow> string \<Rightarrow> response \<Rightarrow> js_error + page option" where
  "read_html_page P hist u r =
     (let contentType = (case headers r ''content-type'' of None \<Rightarrow> [] | Some t \<Rightarrow> t) in
      if \<not> str_includes contentType ''text/html'' then Inr None
      else if (case headers r ''content-length'' of
                 None \<Rightarrow> False
               | Some contentLength \<Rightarrow>
                   contentLength \<noteq> [] \<and>
                   (case parseInt10 contentLength of
                      None \<Rightarrow> False
                    | Some n \<Rightarrow> int MAX_RESPONSE_SIZE_BYTES < n))
      then Inr None
      else (case readResponseWithLimit P r of
              Inl e \<Rightarrow> Inl e
            | Inr None \<Rightarrow> Inr None
            | Inr (Some html) \<Rightarrow>
                if html = [] then Inr None else Inr (Some (parsePage P hist u html))))"

definition fetchWithoutRedirect ::
  "platform \<Rightarrow> string list \<Rightarrow> string \<Rightarrow> (js_error + page option) \<times> string list" where
  "fetchWithoutRedirect P hist u =
     (let hist' = hist @ [u] in
      case http_fetch P hist u of
        Rejected e \<Rightarrow> (Inl e, hist')
      | Resolved r \<Rightarrow>
          if \<not> response_ok r \<or> is_redirect r then (Inr None, hist')
          else (read_html_page P hist' u r, hist'))"

definition TypeError_invalid_url :: js_error where
  "TypeError_invalid_url = Error ''Invalid URL''"

definition fetchAndParsePage ::
  "platform \<Rightarrow> string list \<Rightarrow> string \<Rightarrow> (js_error + page option) \<times> string list" where
  "fetchAndParsePage P hist u =
     (let hist' = hist @ [u] in
      case http_fetch P hist u of
        Rejected e \<Rightarrow> (Inl e, hist')
      | Resolved r \<Rightarrow>
          if is_redirect r then
            (case headers r ''location'' of
               None \<Rightarrow> (Inr None, hist')
             | Some location \<Rightarrow>
                 if location = [] then (Inr None, hist')
                 else (case URL_resolve P location u of
                         None \<Rightarrow> (Inl TypeError_invalid_url, hist')
                       | Some target \<Rightarrow>
                           if isBlockedUrl P (href target) then (Inr None, hist')
                           else fetchWithoutRedirect P hist' (href target)))
          else if \<not> response_ok r then (Inr None, hist')
          else (read_html_page P hist' u r, hist'))"

subsection \<open>Crawler\<close>

definition binary_extension :: js_regexp where
  "binary_extension =
     \<lparr>anchored_start = False, anchored_end = True, ignore_case = True,
      pattern_body = Seq (Chr CHR ''.'')
        (Alts [Lit ''pdf'', Lit ''zip'', Lit ''png'', Lit ''jpg'', Lit ''gif'', Lit ''svg'',
               Lit ''css'', Lit ''js''])\<rparr>"

definition filterValidLinks ::
  "platform \<Rightarrow> string list \<Rightarrow> string list \<Rightarrow> string set \<Rightarrow> string list" where
  "filterValidLinks P links allowedDomains visited =
     filter (\<lambda>link.
        if link \<in> visited then False
        else (case URL_parse P link of
                None \<Rightarrow> False
              | Some parsed \<Rightarrow>
                  if hash parsed \<noteq> [] \<or> regexp_test binary_extension link then False
                  else list_ex (\<lambda>domain. hostname parsed = domain
                                  \<or> endsWith (hostname parsed) (''.'' @ domain))
                         allowedDomains))
       links"

record crawl_options =
  co_maxDepth :: int
  co_maxPages :: "nat option"
  co_allowedDomains :: "string list option"

record crawl_state =
  cs_visited :: "string set"
  cs_pages :: "page list"
  cs_queue :: "(string \<times> nat) list"
  cs_history :: "string list"
  cs_fetched :: "(string \<times> nat) list"

definition visit ::
  "platform \<Rightarrow> int \<Rightarrow> string list \<Rightarrow> string \<Rightarrow> nat \<Rightarrow> crawl_state \<Rightarrow> crawl_state" where
  "visit P maxDepth domains u depth st =
     (let visited' = insert u (cs_visited st);
          (result, hist') = fetchAndParsePage P (cs_history st) u;
          st1 = st\<lparr>cs_visited := visited', cs_history := hist',
                   cs_fetched := cs_fetched st @ [(u, depth)]\<rparr>
      in case result of
           Inr (Some page) \<Rightarrow>
             st1\<lparr>cs_pages := cs_pages st @ [page],
                 cs_queue :=
                   (if int depth < maxDepth
                    then cs_queue st @ map (\<lambda>link. (link, depth + 1))
                           (filterValidLinks P (pg_links page) domains visited')
                    else cs_queue st)\<rparr>
         | Inr None \<Rightarrow> st1
         | Inl e \<Rightarrow> st1)"

definition depth_weight :: "int \<Rightarrow> string \<times> nat \<Rightarrow> nat" where
  "depth_weight maxDepth item = nat (maxDepth + 1 - int (snd item))"

lemma queue_visit:
  "\<exists>links. cs_queue (visit P maxDepth domains u depth st)
      = cs_queue st @ map (\<lambda>link. (link, depth + 1)) links
    \<and> (links \<noteq> [] \<longrightarrow> int depth < maxDepth)"
proof (cases "fetchAndParsePage P (cs_history st) u")
  case (Pair result hist')
  show ?thesis
  proof (cases result)
    case (Inl e)
    with Pair show ?thesis by (intro exI [of _ "[]"]) (simp add: visit_def)
  next
    case (Inr r)
    show ?thesis
    proof (cases r)
      case None
      with Pair Inr show ?thesis by (intro exI [of _ "[]"]) (simp add: visit_def)
    next
      case (Some page)
      show ?thesis
      proof (cases "int depth < maxDepth")
        case True
        with Pair Inr Some show ?thesis
          by (intro exI [of _ "filterValidLinks P (pg_links page) domains (insert u (cs_visited st))"])
            (simp add: visit_def Let_def)
      next
        case False
        with Pair Inr Some show ?thesis by (intro exI [of _ "[]"]) (simp add: visit_def)
      qed
    qed
  qed
qed

lemma mult_drop_head:
  "(mset (map (depth_weight m) rest), mset (map (depth_weight m) (item # rest)))
     \<in> mult less_than"
  using one_step_implies_mult [of "{#depth_weight m item#}" "{#}" less_than
      "mset (map (depth_weight m) rest)"]
  by simp

lemma mult_replace_head:
  assumes "links \<noteq> [] \<longrightarrow> int (snd item) < m"
  shows "(mset (map (depth_weight m) (rest @ map (\<lambda>link. (link, snd item + 1)) links)),
          mset (map (depth_weight m) (item # rest))) \<in> mult less_than"
proof -
  have "\<forall>k \<in> set_mset (mset (map (depth_weight m) (map (\<lambda>link. (link, snd item + 1)) links))).
          \<exists>j \<in> set_mset {#depth_weight m item#}. (k, j) \<in> less_than"
    using assms by (auto simp: depth_weight_def)
  from one_step_implies_mult [OF _ this, of "mset (map (depth_weight m) rest)"]
  show ?thesis by simp
qed

function crawl_loop ::
  "platform \<Rightarrow> int \<Rightarrow> nat \<Rightarrow> string list \<Rightarrow> crawl_state \<Rightarrow> crawl_state" where
  "crawl_loop P maxDepth maxPages domains st =
     (case cs_queue st of
        [] \<Rightarrow> st
      | item # rest \<Rightarrow>
          if \<not> length (cs_pages st) < maxPages then st
          else if fst item \<in> cs_visited st \<or> maxDepth < int (snd item)
            then crawl_loop P maxDepth maxPages domains (st\<lparr>cs_queue := rest\<rparr>)
          else if isBlockedUrl P (fst item)
            then crawl_loop P maxDepth maxPages domains (st\<lparr>cs_queue := rest\<rparr>)
          else crawl_loop P maxDepth maxPages domains
                 (visit P maxDepth domains (fst item) (snd item) (st\<lparr>cs_queue := rest\<rparr>)))"
  by pat_completeness auto
termination
proof (relation "inv_image (mult less_than)
    (\<lambda>(P, maxDepth, maxPages, domains, st). mset (map (depth_weight maxDepth) (cs_queue st)))")
  show "wf (inv_image (mult less_than)
    (\<lambda>(P, maxDepth, maxPages, domains, st). mset (map (depth_weight maxDepth) (cs_queue st))))"
    by (intro wf_inv_image wf_mult wf_less_than)
next
  fix P :: platform and maxDepth :: int and maxPages :: nat and domains :: "string list"
    and st :: crawl_state and item rest
  assume q: "cs_queue st = item # rest"
  show "((P, maxDepth, maxPages, domains, st\<lparr>cs_queue := rest\<rparr>),
         (P, maxDepth, maxPages, domains, st)) \<in> inv_image (mult less_than)
    (\<lambda>(P, maxDepth, maxPages, domains, st). mset (map (depth_weight maxDepth) (cs_queue st)))"
    using mult_drop_head [of maxDepth rest item] by (simp add: q)
  then show "((P, maxDepth, maxPages, domains, st\<lparr>cs_queue := rest\<rparr>),
         (P, maxDepth, maxPages, domains, st)) \<in> inv_image (mult less_than)
    (\<lambda>(P, maxDepth, maxPages, domains, st). mset (map (depth_weight maxDepth) (cs_queue st)))" .
  obtain links where links:
    "cs_queue (visit P maxDepth domains (fst item) (snd item) (st\<lparr>cs_queue := rest\<rparr>))
       = rest @ map (\<lambda>link. (link, snd item + 1)) links"
    "links \<noteq> [] \<longrightarrow> int (snd item) < maxDepth"
    using queue_visit [of P maxDepth domains "fst item" "snd item" "st\<lparr>cs_queue := rest\<rparr>"]
    by auto
  show "((P, maxDepth, maxPages, domains,
          visit P maxDepth domains (fst item) (snd item) (st\<lparr>cs_queue := rest\<rparr>)),
         (P, maxDepth, maxPages, domains, st)) \<in> inv_image (mult less_than)
    (\<lambda>(P, maxDepth, maxPages, domains, st). mset (map (depth_weight maxDepth) (cs_queue st)))"
    by (simp only: in_inv_image prod.case q links(1)) (rule mult_replace_head [OF links(2)])
qed

declare crawl_loop.simps [simp del]

definition crawlWebsite_run ::
  "platform \<Rightarrow> string list \<Rightarrow> string \<Rightarrow> crawl_options \<Rightarrow> js_error + crawl_state" where
  "crawlWebsite_run P hist startUrl options =
     (let maxDepth = min (co_maxDepth options) MAX_DEPTH_LIMIT;
          maxPages = (case co_maxPages options of None \<Rightarrow> DEFAULT_MAX_PAGES | Some n \<Rightarrow> n)
      in if isBlockedUrl P startUrl
         then Inl (Error ''URL is not allowed: internal or private network detected'')
         else (case URL_parse P startUrl of
                 None \<Rightarrow> Inl TypeError_invalid_url
               | Some parsed \<Rightarrow>
                   Inr (crawl_loop P maxDepth maxPages
                          (case co_allowedDomains options of
                             None \<Rightarrow> [hostname parsed] | Some ds \<Rightarrow> ds)
                          \<lparr>cs_visited = {}, cs_pages = [], cs_queue = [(startUrl, 0)],
                           cs_history = hist, cs_fetched = []\<rparr>)))"

definition crawlWebsite ::
  "platform \<Rightarrow> string list \<Rightarrow> string \<Rightarrow> crawl_options \<Rightarrow> js_error + page list" where
  "crawlWebsite P hist startUrl options =
     (case crawlWebsite_run P hist startUrl options of
        Inl e \<Rightarrow> Inl e | Inr st \<Rightarrow> Inr (cs_pages st))"

subsection \<open>Vector store\<close>

record search_result =
  sr_text :: string
  sr_url :: string
  sr_title :: string
  sr_score :: rat

record stored_metadata =
  sm_url :: string
  sm_title :: string
  sm_chunkIndex :: nat
  sm_totalChunks :: nat
  sm_keywords :: string
  sm_indexedAt :: string

record stored_record =
  rec_id :: string
  rec_document :: string
  rec_metadata :: "stored_metadata option"

type_synonym collection = "stored_record list"

definition BATCH_SIZE :: nat where "BATCH_SIZE = 1000"
definition RRF_K :: nat where "RRF_K = 60"

definition col_get :: "collection \<Rightarrow> nat \<Rightarrow> nat \<Rightarrow> stored_record list" where
  "col_get col limit offset = take limit (drop offset col)"

definition col_delete :: "collection \<Rightarrow> string list \<Rightarrow> collection" where
  "col_delete col ids = filter (\<lambda>r. rec_id r \<notin> set ids) col"

subsection \<open>Reciprocal rank fusion\<close>

definition dedup_key :: "search_result \<Rightarrow> string" where
  "dedup_key result = sr_url result @ '':'' @ take 100 (sr_text result)"

fun accumulate ::
  "(string \<times> search_result \<times> rat) list \<Rightarrow> string \<Rightarrow> search_result \<Rightarrow> rat
     \<Rightarrow> (string \<times> search_result \<times> rat) list" where
  "accumulate [] key result rrfScore = [(key, result, rrfScore)]"
| "accumulate ((k, existing, score) # rest) key result rrfScore =
     (if k = key then (k, existing, score + rrfScore) # rest
      else (k, existing, score) # accumulate rest key result rrfScore)"

definition score_list ::
  "nat \<Rightarrow> search_result list \<Rightarrow> (string \<times> search_result \<times> rat) list
     \<Rightarrow> (string \<times> search_result \<times> rat) list" where
  "score_list k results scores =
     foldl (\<lambda>acc (i, result). accumulate acc (dedup_key result) result (1 / of_nat (k + i + 1)))
       scores (enumerate 0 results)"

definition fused_scores ::
  "nat \<Rightarrow> search_result list \<Rightarrow> search_result list \<Rightarrow> (string \<times> search_result \<times> rat) list" where
  "fused_scores k results1 results2 = score_list k results2 (score_list k results1 [])"

definition reciprocalRankFusion ::
  "search_result list \<Rightarrow> search_result list \<Rightarrow> nat \<Rightarrow> nat \<Rightarrow> search_result list" where
  "reciprocalRankFusion results1 results2 topK k =
     map (\<lambda>(key, result, score). result\<lparr>sr_score := score\<rparr>)
       (take topK (sort_key (\<lambda>(key, result, score). - score) (fused_scores k results1 results2)))"

subsection \<open>Source catalog\<close>

definition getBaseUrl :: "platform \<Rightarrow> string \<Rightarrow> string" where
  "getBaseUrl P u =
     (case URL_parse P u of
        Some parsed \<Rightarrow> protocol parsed @ ''//'' @ hostname parsed
      | None \<Rightarrow> u)"

record source_entry =
  se_title :: string
  se_pageUrls :: "string list"
  se_chunkCount :: nat
  se_indexedAt :: string

record source_info =
  si_url :: string
  si_title :: string
  si_pageCount :: nat
  si_chunkCount :: nat
  si_indexedAt :: string

definition record_source ::
  "platform \<Rightarrow> (string \<times> source_entry) list \<Rightarrow> stored_metadata \<Rightarrow> (string \<times> source_entry) list" where
  "record_source P sourceMap meta =
     (let baseUrl = getBaseUrl P (sm_url meta);
          sourceMap1 =
            (if baseUrl \<in> set (map fst sourceMap) then sourceMap
             else sourceMap @ [(baseUrl, \<lparr>se_title = sm_title meta, se_pageUrls = [],
                                          se_chunkCount = 0, se_indexedAt = sm_indexedAt meta\<rparr>)])
      in map (\<lambda>(key, source).
                if key = baseUrl
                then (key, source\<lparr>se_pageUrls := add_unique (se_pageUrls source) (sm_url meta),
                                   se_chunkCount := se_chunkCount source + 1\<rparr>)
                else (key, source))
           sourceMap1)"

definition record_batch ::
  "platform \<Rightarrow> (string \<times> source_entry) list \<Rightarrow> stored_record list \<Rightarrow> (string \<times> source_entry) list" where
  "record_batch P sourceMap batch =
     foldl (\<lambda>m r. case rec_metadata r of None \<Rightarrow> m | Some meta \<Rightarrow> record_source P m meta)
       sourceMap batch"

definition list_page ::
  "platform \<Rightarrow> nat \<Rightarrow> collection \<Rightarrow> nat \<times> (string \<times> source_entry) list
     \<Rightarrow> bool \<times> nat \<times> (string \<times> source_entry) list" where
  "list_page P limit col state =
     (case state of (offset, sourceMap) \<Rightarrow>
        (let batch = col_get col limit offset in
         if batch = [] then (False, offset, sourceMap)
         else (length batch = limit, offset + length batch, record_batch P sourceMap batch)))"

lemma list_page_measure:
  assumes "list_page P limit col (offset, sourceMap) = (True, offset', sourceMap')"
  shows "length col - offset' < length col - offset"
proof -
  let ?batch = "col_get col limit offset"
  from assms have ne: "?batch \<noteq> []" and off: "offset' = offset + length ?batch"
    by (auto simp: list_page_def Let_def split: if_splits)
  from ne have "offset < length col" "0 < length ?batch"
    by (auto simp: col_get_def)
  then show ?thesis unfolding off by linarith
qed

function list_loop ::
  "platform \<Rightarrow> nat \<Rightarrow> collection \<Rightarrow> nat \<times> (string \<times> source_entry) list
     \<Rightarrow> (string \<times> source_entry) list" where
  "list_loop P limit col state =
     (case list_page P limit col state of
        (hasMore, state') \<Rightarrow> if hasMore then list_loop P limit col state' else snd state')"
  by pat_completeness auto
termination
proof (relation "measure (\<lambda>(P, limit, col, offset, sourceMap). length col - offset)")
  show "wf (measure (\<lambda>(P, limit, col, offset, sourceMap). length col - offset))" by simp
next
  fix P :: platform and limit :: nat and col :: collection
    and state state' :: "nat \<times> (string \<times> source_entry) list" and hasMore :: bool
  assume "(hasMore, state') = list_page P limit col state" "hasMore"
  then have "list_page P limit col (fst state, snd state) = (True, fst state', snd state')"
    by simp
  from list_page_measure [OF this]
  show "((P, limit, col, state'), (P, limit, col, state))
      \<in> measure (\<lambda>(P, limit, col, offset, sourceMap). length col - offset)"
    by (simp add: case_prod_unfold)
qed

declare list_loop.simps [simp del]

definition listSources :: "platform \<Rightarrow> collection \<Rightarrow> source_info list" where
  "listSources P col =
     map (\<lambda>(u, data). \<lparr>si_url = u, si_title = se_title data,
                        si_pageCount = length (se_pageUrls data),
                        si_chunkCount = se_chunkCount data,
                        si_indexedAt = se_indexedAt data\<rparr>)
       (list_loop P BATCH_SIZE col (0, []))"

definition url_matches :: "string \<Rightarrow> stored_record \<Rightarrow> bool" where
  "url_matches baseUrl r =
     (case rec_metadata r of None \<Rightarrow> False | Some meta \<Rightarrow> startsWith (sm_url meta) baseUrl)"

definition delete_page ::
  "nat \<Rightarrow> string \<Rightarrow> collection \<times> nat \<times> nat \<Rightarrow> bool \<times> collection \<times> nat \<times> nat" where
  "delete_page limit baseUrl state =
     (case state of (col, offset, totalDeleted) \<Rightarrow>
        (let batch = col_get col limit offset in
         if batch = [] then (False, col, offset, totalDeleted)
         else
           (let idsToDelete = map rec_id (filter (url_matches baseUrl) batch) in
            (length batch = limit,
             if idsToDelete \<noteq> [] then col_delete col idsToDelete else col,
             if idsToDelete = [] then offset + length batch else offset,
             if idsToDelete \<noteq> [] then totalDeleted + length idsToDelete else totalDeleted))))"

lemma delete_page_measure:
  assumes "delete_page limit baseUrl (col, offset, tot) = (True, col', offset', tot')"
  shows "length col' < length col
    \<or> (length col' = length col \<and> length col' - offset' < length col - offset)"
proof -
  let ?batch = "col_get col limit offset"
  let ?ids = "map rec_id (filter (url_matches baseUrl) ?batch)"
  from assms have ne: "?batch \<noteq> []"
    by (auto simp: delete_page_def Let_def split: if_splits)
  show ?thesis
  proof (cases "?ids = []")
    case True
    from ne have "offset < length col" "0 < length ?batch"
      by (auto simp: col_get_def)
    then have "length col - (offset + length ?batch) < length col - offset"
      by linarith
    with True ne assms show ?thesis by (auto simp: delete_page_def Let_def)
  next
    case False
    then obtain r where r: "r \<in> set ?batch" "url_matches baseUrl r"
      by (metis filter_False list.map_disc_iff)
    from r(1) have "r \<in> set col"
      by (auto simp: col_get_def dest: in_set_takeD in_set_dropD)
    moreover have "rec_id r \<in> set ?ids"
      using r by auto
    ultimately have "length (col_delete col ?ids) < length col"
      unfolding col_delete_def by (intro length_filter_less [of r]) auto
    with False ne assms show ?thesis by (auto simp: delete_page_def Let_def)
  qed
qed

function delete_loop :: "nat \<Rightarrow> string \<Rightarrow> collection \<times> nat \<times> nat \<Rightarrow> collection \<times> nat \<times> nat" where
  "delete_loop limit baseUrl state =
     (case delete_page limit baseUrl state of
        (hasMore, state') \<Rightarrow> if hasMore then delete_loop limit baseUrl state' else state')"
  by pat_completeness auto
termination
proof (relation "inv_image (less_than <*lex*> less_than)
    (\<lambda>(limit, baseUrl, col, offset, tot). (length col, length col - offset))")
  show "wf (inv_image (less_than <*lex*> less_than)
    (\<lambda>(limit, baseUrl, col, offset, tot). (length col, length col - offset)))"
    by (intro wf_inv_image wf_lex_prod wf_less_than)
next
  fix limit :: nat and baseUrl :: string and state state' :: "collection \<times> nat \<times> nat"
    and hasMore :: bool
  assume "(hasMore, state') = delete_page limit baseUrl state" "hasMore"
  then have "delete_page limit baseUrl (fst state, fst (snd state), snd (snd state))
      = (True, fst state', fst (snd state'), snd (snd state'))"
    by simp
  from delete_page_measure [OF this]
  show "((limit, baseUrl, state'), (limit, baseUrl, state))
      \<in> inv_image (less_than <*lex*> less_than)
          (\<lambda>(limit, baseUrl, col, offset, tot). (length col, length col - offset))"
    by (auto simp: case_prod_unfold)
qed

declare delete_loop.simps [simp del]

definition deleteByUrl :: "platform \<Rightarrow> collection \<Rightarrow> string \<Rightarrow> nat \<times> collection" where
  "deleteByUrl P col u =
     (case delete_loop BATCH_SIZE (getBaseUrl P u) (col, 0, 0) of
        (col', offset, totalDeleted) \<Rightarrow> (totalDeleted, col'))"

subsection \<open>Tool entry points\<close>

datatype js_number = Integral int | NonIntegral

record search_options =
  so_topK :: "int option"
  so_hybrid :: "bool option"
  so_expandQuery :: "bool option"

record services =
  svc_URL :: "string \<Rightarrow> url option"
  svc_ensureModelAvailable :: bool
  svc_crawlWebsite :: "string \<Rightarrow> crawl_options \<Rightarrow> js_error + page list"
  svc_addChunks :: "chunk list \<Rightarrow> js_error + nat"
  svc_searchSimilar :: "string \<Rightarrow> search_options \<Rightarrow> js_error + search_result list"
  svc_listSources :: "js_error + source_info list"
  svc_deleteByUrl :: "string \<Rightarrow> js_error + nat"

definition error_message :: "js_error \<Rightarrow> string" where
  "error_message e = (case e of Error message \<Rightarrow> message | NonError \<Rightarrow> ''Unknown error'')"

record crawl_input =
  ci_url :: string
  ci_max_depth :: "js_number option"

record crawl_result =
  cr_success :: bool
  cr_pagesIndexed :: nat
  cr_chunksCreated :: nat
  cr_url :: string
  cr_error :: "string option"

definition crawl_failure :: "string \<Rightarrow> string \<Rightarrow> crawl_result" where
  "crawl_failure u message =
     \<lparr>cr_success = False, cr_pagesIndexed = 0, cr_chunksCreated = 0, cr_url = u,
      cr_error = Some message\<rparr>"

definition crawl_and_index_body :: "services \<Rightarrow> string \<Rightarrow> int \<Rightarrow> crawl_result option" where
  "crawl_and_index_body S u effectiveMaxDepth =
     (case svc_URL S u of
        None \<Rightarrow> Some (crawl_failure u (error_message TypeError_invalid_url))
      | Some parsedUrl \<Rightarrow>
          if protocol parsedUrl \<notin> set [''http:'', ''https:'']
          then Some (crawl_failure u ''Invalid URL: must use http or https protocol'')
          else if \<not> svc_ensureModelAvailable S
          then Some (crawl_failure u ''Embedding model not available. Is Ollama running?'')
          else (case svc_crawlWebsite S u
                       \<lparr>co_maxDepth = effectiveMaxDepth, co_maxPages = None,
                        co_allowedDomains = None\<rparr> of
                  Inl e \<Rightarrow> Some (crawl_failure u (error_message e))
                | Inr pages \<Rightarrow>
                    if length pages = 0 then Some (crawl_failure u ''No pages found to index'')
                    else (case chunkPages pages None of
                            None \<Rightarrow> None
                          | Some chunks \<Rightarrow>
                              (case svc_addChunks S chunks of
                                 Inl e \<Rightarrow> Some (crawl_failure u (error_message e))
                               | Inr addedCount \<Rightarrow>
                                   Some \<lparr>cr_success = True, cr_pagesIndexed = length pages,
                                         cr_chunksCreated = addedCount, cr_url = u,
                                         cr_error = None\<rparr>))))"

definition crawlAndIndex :: "services \<Rightarrow> crawl_input \<Rightarrow> crawl_result option" where
  "crawlAndIndex S input =
     (case ci_max_depth input of
        None \<Rightarrow> crawl_and_index_body S (ci_url input) 2
      | Some NonIntegral \<Rightarrow>
          Some (crawl_failure (ci_url input) ''max_depth must be a non-negative integer'')
      | Some (Integral max_depth) \<Rightarrow>
          if max_depth < 0
          then Some (crawl_failure (ci_url input) ''max_depth must be a non-negative integer'')
          else crawl_and_index_body S (ci_url input) max_depth)"

definition MAX_TOP_K :: int where "MAX_TOP_K = 100"
definition MAX_QUERY_LENGTH :: nat where "MAX_QUERY_LENGTH = 10000"

record search_input =
  sq_query :: string
  sq_top_k :: "int option"
  sq_hybrid :: "bool option"
  sq_expand_query :: "bool option"

record search_docs_result =
  sd_results :: "search_result list"
  sd_query :: string
  sd_totalResults :: nat
  sd_error :: "string option"

definition searchDocs :: "services \<Rightarrow> search_input \<Rightarrow> js_error + search_docs_result" where
  "searchDocs S input =
     (let trimmedQuery = js_trim (sq_query input) in
      if MAX_QUERY_LENGTH < length trimmedQuery then
        Inr \<lparr>sd_results = [], sd_query = take 100 trimmedQuery @ ''...'', sd_totalResults = 0,
             sd_error = Some (''Query exceeds maximum length of ''
                              @ toString_radix 10 MAX_QUERY_LENGTH @ '' characters'')\<rparr>
      else if trimmedQuery = [] then
        Inr \<lparr>sd_results = [], sd_query = [], sd_totalResults = 0, sd_error = None\<rparr>
      else
        (let validatedTopK =
               min (max 1 (case sq_top_k input of None \<Rightarrow> 5 | Some k \<Rightarrow> k)) MAX_TOP_K
         in case svc_searchSimilar S trimmedQuery
                   \<lparr>so_topK = Some validatedTopK,
                    so_hybrid = Some (case sq_hybrid input of None \<Rightarrow> True | Some h \<Rightarrow> h),
                    so_expandQuery =
                      Some (case sq_expand_query input of None \<Rightarrow> False | Some x \<Rightarrow> x)\<rparr> of
              Inl e \<Rightarrow> Inl e
            | Inr results \<Rightarrow>
                Inr \<lparr>sd_results = results, sd_query = trimmedQuery,
                     sd_totalResults = length results, sd_error = None\<rparr>))"

record list_sources_result =
  ls_sources :: "source_info list"
  ls_totalSources :: nat

definition listIndexedSources :: "services \<Rightarrow> js_error + list_sources_result" where
  "listIndexedSources S =
     (case svc_listSources S of
        Inl e \<Rightarrow> Inl e
      | Inr sources \<Rightarrow> Inr \<lparr>ls_sources = sources, ls_totalSources = length sources\<rparr>)"

record delete_result =
  dr_success :: bool
  dr_deletedChunks :: nat
  dr_url :: string
  dr_error :: "string option"

definition deleteSource :: "services \<Rightarrow> string \<Rightarrow> delete_result" where
  "deleteSource S u =
     (case svc_URL S u of
        None \<Rightarrow> \<lparr>dr_success = False, dr_deletedChunks = 0, dr_url = u,
                  dr_error = Some (error_message TypeError_invalid_url)\<rparr>
      | Some parsed \<Rightarrow>
          (case svc_deleteByUrl S u of
             Inl e \<Rightarrow> \<lparr>dr_success = False, dr_deletedChunks = 0, dr_url = u,
                       dr_error = Some (error_message e)\<rparr>
           | Inr deletedCount \<Rightarrow>
               if deletedCount = 0
               then \<lparr>dr_success = False, dr_deletedChunks = 0, dr_url = u,
                     dr_error = Some ''No documents found matching this URL''\<rparr>
               else \<lparr>dr_success = True, dr_deletedChunks = deletedCount, dr_url = u,
                     dr_error = None\<rparr>))"

subsection \<open>An example site\<close>

definition site_urls :: "(string \<times> url) list" where
  "site_urls =
     [(''https://docs.example.com/'',
         \<lparr>protocol = ''https:'', hostname = ''docs.example.com'', port = [], hash = [],
          href = ''https://docs.example.com/''\<rparr>),
      (''https://docs.example.com/guide'',
         \<lparr>protocol = ''https:'', hostname = ''docs.example.com'', port = [], hash = [],
          href = ''https://docs.example.com/guide''\<rparr>),
      (''https://docs.example.com/api'',
         \<lparr>protocol = ''https:'', hostname = ''docs.example.com'', port = [], hash = [],
          href = ''https://docs.example.com/api''\<rparr>),
      (''https://docs.example.com/old'',
         \<lparr>protocol = ''https:'', hostname = ''docs.example.com'', port = [], hash = [],
          href = ''https://docs.example.com/old''\<rparr>),
      (''https://docs.example.com/moved'',
         \<lparr>protocol = ''https:'', hostname = ''docs.example.com'', port = [], hash = [],
          href = ''https://docs.example.com/moved''\<rparr>),
      (''http://169.254.169.254/latest/meta-data'',
         \<lparr>protocol = ''http:'', hostname = ''169.254.169.254'', port = [], hash = [],
          href = ''http://169.254.169.254/latest/meta-data''\<rparr>),
      (''https://example.com/'',
         \<lparr>protocol = ''https:'', hostname = ''example.com'', port = [], hash = [],
          href = ''https://example.com/''\<rparr>),
      (''https://example.com:8443/'',
         \<lparr>protocol = ''https:'', hostname = ''example.com'', port = ''8443'', hash = [],
          href = ''https://example.com:8443/''\<rparr>)]"

definition site_response :: "nat \<Rightarrow> (string \<times> string) list \<Rightarrow> 8 word list \<Rightarrow> response" where
  "site_response code hdrs bytes =
     \<lparr>status = code, headers = map_of hdrs, body = Some (Done (Some bytes))\<rparr>"

definition site_fetch :: "string list \<Rightarrow> string \<Rightarrow> fetch_outcome" where
  "site_fetch hist u =
     (if u = ''https://docs.example.com/''
        then Resolved (site_response 200 [(''content-type'', ''text/html; charset=utf-8'')] [65])
      else if u = ''https://docs.example.com/guide''
        then Resolved (site_response 200 [(''content-type'', ''text/html'')] [66])
      else if u = ''https://docs.example.com/api''
        then Resolved (site_response 200 [(''content-type'', ''text/html'')] [67])
      else if u = ''https://docs.example.com/old''
        then Resolved (site_response 301 [(''location'', ''https://docs.example.com/moved'')] [])
      else if u = ''https://docs.example.com/moved''
        then Resolved (site_response 302 [(''location'', ''https://docs.example.com/guide'')] [])
      else Rejected (Error ''fetch failed''))"

definition site_decode :: "8 word list \<Rightarrow> string" where
  "site_decode bytes =
     map (\<lambda>b. if b = 65 then CHR ''A'' else if b = 66 then CHR ''B'' else CHR ''C'') bytes"

definition site_dom :: "string \<Rightarrow> dom" where
  "site_dom html =
     \<lparr>dom_title = (if html = ''A'' then ''Home'' else if html = ''B'' then ''Guide'' else ''API''),
      dom_h1 = [], dom_main = [], dom_article = [], dom_role_main = [],
      dom_body = (if html = ''A'' then ''Welcome  to the docs'' else ''Details''),
      dom_hrefs = (if html = ''A''
                   then [''https://docs.example.com/guide'', ''https://docs.example.com/api'']
                   else [''https://docs.example.com/''])\<rparr>"

definition site :: platform where
  "site =
     \<lparr>URL_parse = map_of site_urls,
      URL_resolve = (\<lambda>relative base. map_of site_urls relative),
      http_fetch = site_fetch,
      text_decode = site_decode,
      cheerio_load = site_dom,
      clock = length\<rparr>"


definition example_page :: page where
  "example_page =
     \<lparr>pg_url = ''https://example.com/test'', pg_title = ''Test Page'',
      pg_content = ''TypeScript programming language for web development'',
      pg_links = [], pg_crawledAt = 0\<rparr>"

definition sliding_options :: chunk_options where
  "sliding_options = \<lparr>opt_chunkSize = None, opt_chunkOverlap = None, opt_semantic = Some False\<rparr>"

lemmas lower_defs = toLowerCase_def toLowerCase_char_def upper_case_chars_def lower_case_chars_def
lemmas guard_defs = isBlockedUrl_def BLOCKED_HOSTNAMES_def BLOCKED_HOSTNAME_PATTERNS_def
  regexp_test_def full_match_def Digit_def Plus_def

text \<open>
  Claim C1. Whatever the URL parser, a URL whose parsed hostname is \<open>localhost\<close>,
  \<open>127.0.0.1\<close>, \<open>10.1.2.3\<close>, \<open>172.20.0.5\<close>, \<open>192.168.1.1\<close>, \<open>169.254.169.254\<close> or
  \<open>metadata.google.internal\<close> is blocked; a URL with hostname \<open>example.com\<close> whose port
  is unspecified (the parser drops the default port 443 of https) or \<open>443\<close> is not blocked;
  with port \<open>8443\<close> it is blocked; and a string that does not parse as a URL is blocked.
\<close>

theorem isBlockedUrl_policy:
  "(URL_parse P u = Some parsed \<and>
      hostname parsed \<in> {''localhost'', ''127.0.0.1'', ''10.1.2.3'', ''172.20.0.5'',
                          ''192.168.1.1'', ''169.254.169.254'', ''metadata.google.internal''}
      \<longrightarrow> isBlockedUrl P u)
   \<and> (URL_parse P u = Some parsed \<and> hostname parsed = ''example.com''
        \<and> (port parsed = [] \<or> port parsed = ''443'') \<longrightarrow> \<not> isBlockedUrl P u)
   \<and> (URL_parse P u = Some parsed \<and> hostname parsed = ''example.com''
        \<and> port parsed = ''8443'' \<longrightarrow> isBlockedUrl P u)
   \<and> (URL_parse P u = None \<longrightarrow> isBlockedUrl P u)"
proof (intro conjI impI)
  assume "URL_parse P u = Some parsed \<and>
      hostname parsed \<in> {''localhost'', ''127.0.0.1'', ''10.1.2.3'', ''172.20.0.5'',
                          ''192.168.1.1'', ''169.254.169.254'', ''metadata.google.internal''}"
  then have p: "URL_parse P u = Some parsed"
    and "hostname parsed = ''localhost'' \<or> hostname parsed = ''127.0.0.1''
      \<or> hostname parsed = ''10.1.2.3'' \<or> hostname parsed = ''172.20.0.5''
      \<or> hostname parsed = ''192.168.1.1'' \<or> hostname parsed = ''169.254.169.254''
      \<or> hostname parsed = ''metadata.google.internal''"
    by simp_all
  then consider "hostname parsed = ''localhost''" | "hostname parsed = ''127.0.0.1''"
    | "hostname parsed = ''10.1.2.3''" | "hostname parsed = ''172.20.0.5''"
    | "hostname parsed = ''192.168.1.1''" | "hostname parsed = ''169.254.169.254''"
    | "hostname parsed = ''metadata.google.internal''"
    by blast
  then show "isBlockedUrl P u"
  proof cases
    case 1 with p show ?thesis by (simp add: isBlockedUrl_def BLOCKED_HOSTNAMES_def lower_defs)
  next
    case 2 with p show ?thesis by (simp add: isBlockedUrl_def BLOCKED_HOSTNAMES_def lower_defs)
  next
    case 3 with p show ?thesis by (simp add: guard_defs lower_defs)
  next
    case 4 with p show ?thesis by (simp add: guard_defs lower_defs)
  next
    case 5 with p show ?thesis by (simp add: guard_defs lower_defs)
  next
    case 6 with p show ?thesis by (simp add: isBlockedUrl_def BLOCKED_HOSTNAMES_def lower_defs)
  next
    case 7 with p show ?thesis by (simp add: isBlockedUrl_def BLOCKED_HOSTNAMES_def lower_defs)
  qed
next
  assume "URL_parse P u = Some parsed \<and> hostname parsed = ''example.com''
        \<and> (port parsed = [] \<or> port parsed = ''443'')"
  then show "\<not> isBlockedUrl P u"
    by (auto simp: guard_defs lower_defs)
next
  assume "URL_parse P u = Some parsed \<and> hostname parsed = ''example.com''
        \<and> port parsed = ''8443''"
  then show "isBlockedUrl P u"
    by (simp add: guard_defs lower_defs)
next
  assume "URL_parse P u = None"
  then show "isBlockedUrl P u" by (simp add: isBlockedUrl_def)
qed

theorem isBlockedUrl_policy_witness:
  "isBlockedUrl site ''http://169.254.169.254/latest/meta-data''
   \<and> \<not> isBlockedUrl site ''https://example.com/''
   \<and> isBlockedUrl site ''https://example.com:8443/''
   \<and> isBlockedUrl site ''not a url''"
proof -
  let ?m = "\<lparr>protocol = ''http:'', hostname = ''169.254.169.254'', port = [], hash = [],
          href = ''http://169.254.169.254/latest/meta-data''\<rparr>"
  let ?e = "\<lparr>protocol = ''https:'', hostname = ''example.com'', port = [], hash = [],
          href = ''https://example.com/''\<rparr>"
  let ?p = "\<lparr>protocol = ''https:'', hostname = ''example.com'', port = ''8443'', hash = [],
          href = ''https://example.com:8443/''\<rparr>"
  have p1: "URL_parse site ''http://169.254.169.254/latest/meta-data'' = Some ?m"
    by (simp add: site_def site_urls_def)
  have p2: "URL_parse site ''https://example.com/'' = Some ?e"
    by (simp add: site_def site_urls_def)
  have p3: "URL_parse site ''https://example.com:8443/'' = Some ?p"
    by (simp add: site_def site_urls_def)
  have p4: "URL_parse site ''not a url'' = None"
    by (simp add: site_def site_urls_def)
  have "isBlockedUrl site ''http://169.254.169.254/latest/meta-data''"
    using isBlockedUrl_policy [of site "''http://169.254.169.254/latest/meta-data''" ?m] p1
    by simp
  moreover have "\<not> isBlockedUrl site ''https://example.com/''"
    using isBlockedUrl_policy [of site "''https://example.com/''" ?e] p2 by simp
  moreover have "isBlockedUrl site ''https://example.com:8443/''"
    using isBlockedUrl_policy [of site "''https://example.com:8443/''" ?p] p3 by simp
  moreover have "isBlockedUrl site ''not a url''"
    using isBlockedUrl_policy [of site "''not a url''"] p4 by simp
  ultimately show ?thesis by simp
qed

lemma fetchWithoutRedirect_history:
  "snd (fetchWithoutRedirect P hist u) = hist @ [u]"
  by (simp add: fetchWithoutRedirect_def Let_def split: fetch_outcome.split)

lemma fetchWithoutRedirect_redirect:
  "http_fetch P hist u = Resolved r \<Longrightarrow> is_redirect r
     \<Longrightarrow> fetchWithoutRedirect P hist u = (Inr None, hist @ [u])"
  by (simp add: fetchWithoutRedirect_def Let_def)

lemma fetchAndParsePage_history:
  obtains (direct) "snd (fetchAndParsePage P hist u) = hist @ [u]"
  | (hop) r location target where
      "http_fetch P hist u = Resolved r" "is_redirect r"
      "headers r ''location'' = Some location"
      "URL_resolve P location u = Some target"
      "\<not> isBlockedUrl P (href target)"
      "snd (fetchAndParsePage P hist u) = hist @ [u, href target]"
proof (cases "http_fetch P hist u")
  case (Rejected e)
  then show ?thesis by (intro direct) (simp add: fetchAndParsePage_def Let_def)
next
  case (Resolved r)
  show ?thesis
  proof (cases "is_redirect r")
    case False
    with Resolved show ?thesis by (intro direct) (simp add: fetchAndParsePage_def Let_def)
  next
    case True
    show ?thesis
    proof (cases "headers r ''location''")
      case None
      with Resolved True show ?thesis
        by (intro direct) (simp add: fetchAndParsePage_def Let_def)
    next
      case (Some location)
      show ?thesis
      proof (cases "URL_resolve P location u")
        case None
        with Resolved True Some show ?thesis
          by (intro direct) (simp add: fetchAndParsePage_def Let_def)
      next
        case target: (Some target)
        show ?thesis
        proof (cases "location = [] \<or> isBlockedUrl P (href target)")
          case True
          with Resolved \<open>is_redirect r\<close> Some target show ?thesis
            by (intro direct) (auto simp: fetchAndParsePage_def Let_def)
        next
          case False
          then have "snd (fetchAndParsePage P hist u) = hist @ [u, href target]"
            using Resolved \<open>is_redirect r\<close> Some target
              fetchWithoutRedirect_history [of P "hist @ [u]" "href target"]
            by (simp add: fetchAndParsePage_def Let_def)
          with Resolved \<open>is_redirect r\<close> Some target False show ?thesis
            by (intro hop [of r location target]) simp_all
        qed
      qed
    qed
  qed
qed

text \<open>
  Claim C2. For every URL, request history and backend, \<open>fetchAndParsePage\<close> issues the
  request for the URL and at most one more. A second request is issued only when the first
  response is a 3xx whose \<open>Location\<close> resolves to a target that the URL guard does not
  block; when the guard blocks the target the result is \<open>null\<close> and nothing more is
  fetched; and when the follow-up response is itself a 3xx the result is \<open>null\<close> and no
  third request is issued.
\<close>

theorem fetchAndParsePage_single_hop:
  "(\<exists>followed. snd (fetchAndParsePage P hist u) = hist @ u # followed \<and> length followed \<le> 1)
   \<and> (\<forall>next_url. snd (fetchAndParsePage P hist u) = hist @ [u, next_url] \<longrightarrow>
         (\<exists>r location target.
            http_fetch P hist u = Resolved r \<and> is_redirect r
            \<and> headers r ''location'' = Some location
            \<and> URL_resolve P location u = Some target \<and> href target = next_url
            \<and> \<not> isBlockedUrl P next_url))
   \<and> (http_fetch P hist u = Resolved r \<and> is_redirect r
        \<and> headers r ''location'' = Some location
        \<and> URL_resolve P location u = Some target \<and> isBlockedUrl P (href target)
        \<longrightarrow> fetchAndParsePage P hist u = (Inr None, hist @ [u]))
   \<and> (http_fetch P hist u = Resolved r \<and> is_redirect r
        \<and> headers r ''location'' = Some location \<and> location \<noteq> []
        \<and> URL_resolve P location u = Some target \<and> \<not> isBlockedUrl P (href target)
        \<and> http_fetch P (hist @ [u]) (href target) = Resolved r2 \<and> is_redirect r2
        \<longrightarrow> fetchAndParsePage P hist u = (Inr None, hist @ [u, href target]))"
proof (intro conjI allI impI)
  show "\<exists>followed. snd (fetchAndParsePage P hist u) = hist @ u # followed \<and> length followed \<le> 1"
  proof (cases P hist u rule: fetchAndParsePage_history)
    case direct
    then show ?thesis by (intro exI [of _ "[]"]) simp
  next
    case (hop r' location' target')
    then show ?thesis by (intro exI [of _ "[href target']"]) simp
  qed
next
  fix next_url
  assume two: "snd (fetchAndParsePage P hist u) = hist @ [u, next_url]"
  show "\<exists>r location target.
            http_fetch P hist u = Resolved r \<and> is_redirect r
            \<and> headers r ''location'' = Some location
            \<and> URL_resolve P location u = Some target \<and> href target = next_url
            \<and> \<not> isBlockedUrl P next_url"
  proof (cases P hist u rule: fetchAndParsePage_history)
    case direct
    with two show ?thesis by simp
  next
    case (hop r' location' target')
    from hop(6) two have "href target' = next_url" by simp
    with hop show ?thesis
      by (intro exI [of _ r'] exI [of _ location'] exI [of _ target']) simp
  qed
next
  assume "http_fetch P hist u = Resolved r \<and> is_redirect r
        \<and> headers r ''location'' = Some location
        \<and> URL_resolve P location u = Some target \<and> isBlockedUrl P (href target)"
  then show "fetchAndParsePage P hist u = (Inr None, hist @ [u])"
    by (simp add: fetchAndParsePage_def Let_def)
next
  assume a: "http_fetch P hist u = Resolved r \<and> is_redirect r
        \<and> headers r ''location'' = Some location \<and> location \<noteq> []
        \<and> URL_resolve P location u = Some target \<and> \<not> isBlockedUrl P (href target)
        \<and> http_fetch P (hist @ [u]) (href target) = Resolved r2 \<and> is_redirect r2"
  then have "fetchWithoutRedirect P (hist @ [u]) (href target)
      = (Inr None, (hist @ [u]) @ [href target])"
    using fetchWithoutRedirect_redirect [of P "hist @ [u]" "href target" r2] by simp
  with a show "fetchAndParsePage P hist u = (Inr None, hist @ [u, href target])"
    by (simp add: fetchAndParsePage_def Let_def)
qed

lemma site_not_blocked:
  "\<not> isBlockedUrl site ''https://docs.example.com/''"
  "\<not> isBlockedUrl site ''https://docs.example.com/guide''"
  "\<not> isBlockedUrl site ''https://docs.example.com/api''"
  "\<not> isBlockedUrl site ''https://docs.example.com/moved''"
  by (simp_all add: guard_defs lower_defs site_def site_urls_def)

theorem fetchAndParsePage_single_hop_witness:
  "fetchAndParsePage site [] ''https://docs.example.com/old''
     = (Inr None, [''https://docs.example.com/old'', ''https://docs.example.com/moved''])"
proof -
  let ?old = "''https://docs.example.com/old''"
  let ?moved = "\<lparr>protocol = ''https:'', hostname = ''docs.example.com'', port = [], hash = [],
          href = ''https://docs.example.com/moved''\<rparr>"
  let ?r = "site_response 301 [(''location'', ''https://docs.example.com/moved'')] []"
  let ?r2 = "site_response 302 [(''location'', ''https://docs.example.com/guide'')] []"
  have f1: "http_fetch site [] ?old = Resolved ?r"
    by (simp add: site_def site_fetch_def)
  have f2: "http_fetch site ([] @ [?old]) (href ?moved) = Resolved ?r2"
    by (simp add: site_def site_fetch_def)
  have r: "is_redirect ?r" "is_redirect ?r2"
    by (simp_all add: is_redirect_def site_response_def)
  have loc: "headers ?r ''location'' = Some ''https://docs.example.com/moved''"
    by (simp add: site_response_def)
  have res: "URL_resolve site ''https://docs.example.com/moved'' ?old = Some ?moved"
    by (simp add: site_def site_urls_def)
  have nb: "\<not> isBlockedUrl site (href ?moved)"
    using site_not_blocked(4) by simp
  have ne: "''https://docs.example.com/moved'' \<noteq> []" by simp
  from f1 r(1) loc ne res nb f2 r(2)
  have prem: "http_fetch site [] ?old = Resolved ?r \<and> is_redirect ?r
        \<and> headers ?r ''location'' = Some ''https://docs.example.com/moved''
        \<and> ''https://docs.example.com/moved'' \<noteq> []
        \<and> URL_resolve site ''https://docs.example.com/moved'' ?old = Some ?moved
        \<and> \<not> isBlockedUrl site (href ?moved)
        \<and> http_fetch site ([] @ [?old]) (href ?moved) = Resolved ?r2 \<and> is_redirect ?r2"
    by (intro conjI) assumption+
  from fetchAndParsePage_single_hop [of site "[]" ?old ?r "''https://docs.example.com/moved''"
      ?moved ?r2, THEN conjunct2, THEN conjunct2, THEN conjunct2, THEN mp, OF prem]
  show ?thesis by simp
qed

lemma sliding_loop_total:
  assumes step: "chunkOverlap < chunkSize"
  shows "\<exists>r. sliding_loop words chunkSize chunkOverlap start chunks = Some r"
proof (induction "nat (int (length words) - start)" arbitrary: start chunks rule: less_induct)
  case less
  show ?case
  proof (cases "start < int (length words)")
    case False
    then show ?thesis by (subst sliding_loop.simps) simp
  next
    case True
    define chunk where "chunk = join_with '' '' (js_slice words start (min (start + chunkSize) (int (length words))))"
    define start' where "start' = start + (chunkSize - chunkOverlap)"
    have "nat (int (length words) - start') < nat (int (length words) - start)"
      using True step by (simp add: start'_def)
    from less[OF this] have IH: "\<exists>r. sliding_loop words chunkSize chunkOverlap start' c = Some r" for c
      by blast
    show ?thesis
      by (subst sliding_loop.simps)
        (use True IH in \<open>simp add: Let_def chunk_def[symmetric] start'_def[symmetric]\<close>)
  qed
qed

lemma slidingWindowChunk_total:
  "chunkOverlap < chunkSize \<Longrightarrow> \<exists>r. slidingWindowChunk text chunkSize chunkOverlap = Some r"
  using sliding_loop_total [of chunkOverlap chunkSize "split_ws text" 0 "[]"]
  by (simp add: slidingWindowChunk_def Let_def)

lemma semantic_loop_total:
  "chunkOverlap < maxChunkSize \<Longrightarrow>
     \<exists>r. semantic_loop maxChunkSize chunkOverlap ps chunks cur sz = Some r"
proof (induction ps arbitrary: chunks cur sz)
  case Nil
  then show ?case by simp
next
  case (Cons p ps)
  obtain sub where sub: "slidingWindowChunk p maxChunkSize chunkOverlap = Some sub"
    using slidingWindowChunk_total [OF Cons.prems] by blast
  show ?case
    using Cons.IH [OF Cons.prems] sub
    by (simp add: Let_def split: prod.split)
qed

lemma semanticChunkText_total:
  "chunkOverlap < maxChunkSize \<Longrightarrow> \<exists>r. semanticChunkText text maxChunkSize chunkOverlap = Some r"
  using semantic_loop_total [of chunkOverlap maxChunkSize "split_paragraphs text" "[]" "[]" 0]
  by (auto simp: semanticChunkText_def)

lemma chunkPages_loop_total:
  "chunkOverlap < chunkSize \<Longrightarrow>
     \<exists>r. chunkPages_loop chunkSize chunkOverlap useSemantic pages acc = Some r"
proof (induction pages arbitrary: acc)
  case Nil
  then show ?case by simp
next
  case (Cons p ps)
  obtain a where a: "semanticChunkText (pg_content p) chunkSize chunkOverlap = Some a"
    using semanticChunkText_total [OF Cons.prems] by blast
  obtain b where b: "slidingWindowChunk (pg_content p) chunkSize chunkOverlap = Some b"
    using slidingWindowChunk_total [OF Cons.prems] by blast
  show ?case
    by (cases useSemantic) (use Cons.IH [OF Cons.prems] a b in simp_all)
qed

lemma chunkPages_loop_acc:
  "chunkPages_loop cs co sem pages acc =
     map_option (\<lambda>r. acc @ r) (chunkPages_loop cs co sem pages [])"
proof (induction pages arbitrary: acc)
  case Nil
  then show ?case by simp
next
  case (Cons p ps)
  show ?case
  proof (cases "if sem then semanticChunkText (pg_content p) cs co
            else slidingWindowChunk (pg_content p) cs co")
    case None
    then show ?thesis by simp
  next
    case (Some ts)
    have "chunkPages_loop cs co sem (p # ps) acc
        = chunkPages_loop cs co sem ps (acc @ page_chunks p ts)"
      using Some by simp
    also have "\<dots> = map_option (\<lambda>r. (acc @ page_chunks p ts) @ r) (chunkPages_loop cs co sem ps [])"
      by (rule Cons.IH)
    also have "\<dots> = map_option (\<lambda>r. acc @ r)
        (map_option (\<lambda>r. page_chunks p ts @ r) (chunkPages_loop cs co sem ps []))"
      by (simp add: option.map_comp comp_def)
    also have "map_option (\<lambda>r. page_chunks p ts @ r) (chunkPages_loop cs co sem ps [])
        = chunkPages_loop cs co sem ps ([] @ page_chunks p ts)"
      using Cons.IH [of "page_chunks p ts"] by simp
    also have "\<dots> = chunkPages_loop cs co sem (p # ps) []"
      using Some by simp
    finally show ?thesis .
  qed
qed


lemma page_chunks_cong:
  "pg_url p = pg_url q \<Longrightarrow> pg_title p = pg_title q \<Longrightarrow> pg_content p = pg_content q
     \<Longrightarrow> page_chunks p ts = page_chunks q ts"
  by (simp add: page_chunks_def generateDocumentContext_def)

lemma chunkPages_loop_cong:
  "map (\<lambda>p. (pg_url p, pg_title p, pg_content p)) ps
     = map (\<lambda>p. (pg_url p, pg_title p, pg_content p)) qs
   \<Longrightarrow> chunkPages_loop cs co sem ps acc = chunkPages_loop cs co sem qs acc"
proof (induction ps arbitrary: qs acc)
  case Nil
  then show ?case by simp
next
  case (Cons p ps)
  then obtain q qs' where qs: "qs = q # qs'" by (cases qs) auto
  with Cons.prems have same: "pg_url p = pg_url q" "pg_title p = pg_title q"
      "pg_content p = pg_content q"
    and rest: "map (\<lambda>p. (pg_url p, pg_title p, pg_content p)) ps
      = map (\<lambda>p. (pg_url p, pg_title p, pg_content p)) qs'"
    by simp_all
  have IH: "chunkPages_loop cs co sem ps a = chunkPages_loop cs co sem qs' a" for a
    by (rule Cons.IH [OF rest])
  show ?case
    unfolding qs using IH
    by (cases sem) (auto simp: same page_chunks_cong [OF same] split: option.split)
qed

lemma map_fst_enumerate0: "map (\<lambda>x. g (fst x)) (enumerate 0 ts) = map g [0..<length ts]"
proof -
  have "map (\<lambda>x. g (fst x)) (enumerate 0 ts) = map g (map fst (enumerate 0 ts))"
    by (simp only: map_map comp_def)
  also have "map fst (enumerate 0 ts) = [0..<length ts]" by simp
  finally show ?thesis .
qed

lemma page_chunks_ids:
  "map chunk_id (page_chunks p ts) = map (generateChunkId (pg_url p)) [0..<length ts]"
  by (simp add: page_chunks_def comp_def case_prod_unfold map_fst_enumerate0)

lemma page_chunks_indices:
  "map (\<lambda>c. md_chunkIndex (chunk_metadata c)) (page_chunks p ts) = [0..<length ts]"
  using map_fst_enumerate0 [of "\<lambda>i. i" ts]
  by (simp add: page_chunks_def comp_def case_prod_unfold)

lemma length_page_chunks: "length (page_chunks p ts) = length ts"
  by (simp add: page_chunks_def)

lemma chunkPages_single:
  assumes "chunkPages [p] opts = Some cs"
  shows "\<exists>ts. cs = page_chunks p ts"
  using assms by (auto simp: chunkPages_def split: option.splits if_splits)

lemma chunkPages_Cons:
  "chunkPages (p # ps) opts =
     (case chunkPages [p] opts of None \<Rightarrow> None
      | Some first \<Rightarrow> map_option (\<lambda>r. first @ r) (chunkPages ps opts))"
proof -
  let ?cs = "option_field opts opt_chunkSize DEFAULT_CHUNK_SIZE"
  let ?co = "option_field opts opt_chunkOverlap DEFAULT_CHUNK_OVERLAP"
  let ?sem = "option_field opts opt_semantic True"
  show ?thesis
  proof (cases "if ?sem then semanticChunkText (pg_content p) ?cs ?co
            else slidingWindowChunk (pg_content p) ?cs ?co")
    case None
    then show ?thesis by (simp add: chunkPages_def)
  next
    case (Some ts)
    then show ?thesis
      using chunkPages_loop_acc [of ?cs ?co ?sem ps "page_chunks p ts"]
      by (simp add: chunkPages_def)
  qed
qed

text \<open>
  Claim C6. \<open>chunkPages\<close> is deterministic and depends on a page only through its url,
  title and content: two page lists that agree on these fields (whatever their links and
  crawl times) give the same chunk list, hence the same ids and texts. The chunks of a
  page list are the chunks of its pages in order, and the ids of one page's chunks are
  \<open>simpleHash url\<close>, \<open>-\<close> and the decimal ordinal index \<open>0, 1, ...\<close> of the chunk in
  that page. With an overlap below the chunk size (as for the defaults 100 and 500) the
  splitting loops terminate, so a result exists.
\<close>

theorem chunkPages_deterministic:
  "(map (\<lambda>p. (pg_url p, pg_title p, pg_content p)) ps
      = map (\<lambda>p. (pg_url p, pg_title p, pg_content p)) qs
    \<longrightarrow> chunkPages ps opts = chunkPages qs opts)
   \<and> (\<forall>cs. chunkPages [p] opts = Some cs \<longrightarrow>
          map chunk_id cs
            = map (\<lambda>i. simpleHash (pg_url p) @ ''-'' @ toString_radix 10 i) [0..<length cs]
          \<and> map (\<lambda>c. md_chunkIndex (chunk_metadata c)) cs = [0..<length cs])
   \<and> chunkPages (p # ps) opts =
        (case chunkPages [p] opts of None \<Rightarrow> None
         | Some first \<Rightarrow> map_option (\<lambda>r. first @ r) (chunkPages ps opts))
   \<and> (option_field opts opt_chunkOverlap DEFAULT_CHUNK_OVERLAP
        < option_field opts opt_chunkSize DEFAULT_CHUNK_SIZE
      \<longrightarrow> (\<exists>cs. chunkPages ps opts = Some cs))"
proof (intro conjI impI allI)
  assume "map (\<lambda>p. (pg_url p, pg_title p, pg_content p)) ps
      = map (\<lambda>p. (pg_url p, pg_title p, pg_content p)) qs"
  then show "chunkPages ps opts = chunkPages qs opts"
    unfolding chunkPages_def by (rule chunkPages_loop_cong)
next
  fix cs assume "chunkPages [p] opts = Some cs"
  then obtain ts where ts: "cs = page_chunks p ts" using chunkPages_single by blast
  have gen: "generateChunkId (pg_url p) = (\<lambda>i. simpleHash (pg_url p) @ ''-'' @ toString_radix 10 i)"
    by (rule ext) (simp add: generateChunkId_def)
  show "map chunk_id cs
      = map (\<lambda>i. simpleHash (pg_url p) @ ''-'' @ toString_radix 10 i) [0..<length cs]"
    unfolding ts page_chunks_ids length_page_chunks gen ..
  show "map (\<lambda>c. md_chunkIndex (chunk_metadata c)) cs = [0..<length cs]"
    unfolding ts page_chunks_indices length_page_chunks ..
next
  show "chunkPages (p # ps) opts =
        (case chunkPages [p] opts of None \<Rightarrow> None
         | Some first \<Rightarrow> map_option (\<lambda>r. first @ r) (chunkPages ps opts))"
    by (rule chunkPages_Cons)
next
  assume "option_field opts opt_chunkOverlap DEFAULT_CHUNK_OVERLAP
        < option_field opts opt_chunkSize DEFAULT_CHUNK_SIZE"
  then show "\<exists>cs. chunkPages ps opts = Some cs"
    unfolding chunkPages_def by (rule chunkPages_loop_total)
qed

lemma chunkPages_example: "chunkPages [example_page] (Some sliding_options)
    = Some (page_chunks example_page [pg_content example_page])"
  by (simp add: example_page_def sliding_options_def chunkPages_def option_field_def
        slidingWindowChunk_def split_ws_def isWhiteSpace_def DEFAULT_CHUNK_SIZE_def
        DEFAULT_CHUNK_OVERLAP_def)


theorem chunkPages_deterministic_witness:
  "chunkPages [example_page] (Some sliding_options)
     = chunkPages [example_page\<lparr>pg_links := [''https://example.com/other''],
                                 pg_crawledAt := 42\<rparr>] (Some sliding_options)
   \<and> map chunk_id (page_chunks example_page [pg_content example_page]) = [''m03wvn-0'']
   \<and> (\<exists>cs. chunkPages [example_page] None = Some cs)"
proof -
  let ?again = "example_page\<lparr>pg_links := [''https://example.com/other''], pg_crawledAt := 42\<rparr>"
  note T = chunkPages_deterministic [of "[example_page]" "[?again]" "Some sliding_options"
      example_page]
  have same: "map (\<lambda>p. (pg_url p, pg_title p, pg_content p)) [example_page]
      = map (\<lambda>p. (pg_url p, pg_title p, pg_content p)) [?again]"
    by simp
  have A: "chunkPages [example_page] (Some sliding_options)
      = chunkPages [?again] (Some sliding_options)"
    by (rule T [THEN conjunct1, THEN mp, OF same])
  have "map chunk_id (page_chunks example_page [pg_content example_page])
      = map (\<lambda>i. simpleHash (pg_url example_page) @ ''-'' @ toString_radix 10 i)
          [0..<length (page_chunks example_page [pg_content example_page])]"
    by (rule T [THEN conjunct2, THEN conjunct1, THEN spec, THEN mp, OF chunkPages_example,
          THEN conjunct1])
  also have "\<dots> = [''m03wvn-0'']"
    by (simp add: length_page_chunks example_page_def simpleHash_def toString_radix.simps
          digit_char_def)
  finally have B: "map chunk_id (page_chunks example_page [pg_content example_page])
      = [''m03wvn-0'']" .
  have "option_field None opt_chunkOverlap DEFAULT_CHUNK_OVERLAP
      < option_field None opt_chunkSize DEFAULT_CHUNK_SIZE"
    by (simp add: option_field_def DEFAULT_CHUNK_OVERLAP_def DEFAULT_CHUNK_SIZE_def)
  then have C: "\<exists>cs. chunkPages [example_page] None = Some cs"
    by (rule chunkPages_deterministic [of "[example_page]" "[example_page]" None example_page,
          THEN conjunct2, THEN conjunct2, THEN conjunct2, THEN mp])
  from A B C show ?thesis by (intro conjI)
qed

lemma hash_loop_collision:
  "hash_loop 0 ''https://example.com/Aa'' = hash_loop 0 ''https://example.com/BB''"
  by simp

text \<open>
  Claim C10. Chunk identifiers are not injective in the page URL: the two distinct URLs
  \<open>https://example.com/Aa\<close> and \<open>https://example.com/BB\<close> have the same 32-bit rolling
  hash (\<open>65 * 31 + 97 = 66 * 31 + 66\<close>), hence the same identifier at every chunk index,
  so the chunks of one page can overwrite those of the other in the store.
\<close>

theorem generateChunkId_not_injective:
  "\<exists>u1 u2. u1 \<noteq> u2 \<and> (\<forall>i. generateChunkId u1 i = generateChunkId u2 i)"
proof (intro exI conjI allI)
  show "''https://example.com/Aa'' \<noteq> ''https://example.com/BB''" by simp
next
  fix i
  show "generateChunkId ''https://example.com/Aa'' i
      = generateChunkId ''https://example.com/BB'' i"
    unfolding generateChunkId_def simpleHash_def
    by (simp only: hash_loop_collision)
qed

end
